theory Spec2Isabelle
  imports Main
begin

section \<open>The verification runner \<^verbatim>\<open>verify_modal.py\<close>\<close>

text \<open>
  The repository is one script, \<^verbatim>\<open>jules-scratch/verification/verify_modal.py\<close>:
  \<^verbatim>\<open>
  async def main():
      async with async_playwright() as p:
          browser = await p.chromium.launch()
          page = await browser.new_page()
          modal_path = "file://" + os.path.abspath("modal.html")
          await page.goto(modal_path)
          await page.eval_on_selector('#api-status', """(el) => {
              el.textContent = 'OCRing with gpt-4o...';
          }""")
          await page.screenshot(path="jules-scratch/verification/modal_final_confirmation.png")
          await browser.close()

  if __name__ == "__main__":
      asyncio.run(main())
  \<close>
  The script is embedded as a function on an explicit world (the filesystem, the
  processes of the browser session, the page's document and the trace of library calls).
  Every \<^verbatim>\<open>await\<close> is a call that returns or raises before the next statement
  runs: \<^verbatim>\<open>main\<close> is the only task of the event loop of
  \<^verbatim>\<open>asyncio.run\<close>, and it creates no other task. An exception is a value
  \<open>Some err\<close> that ends the remaining statements of the block it is raised in.
\<close>

subsection \<open>\<^verbatim>\<open>os.path\<close> on POSIX\<close>

text \<open>
  \<^verbatim>\<open>os.path.abspath\<close> is the standard library's (\<^verbatim>\<open>posixpath.py\<close>):
  \<^verbatim>\<open>
  def join(a, *p):
      sep = '/'
      path = a
      for b in p:
          if b.startswith(sep):
              path = b
          elif not path or path.endswith(sep):
              path += b
          else:
              path += sep + b
      return path

  def normpath(path):
      if not path:
          return '.'
      initial_slashes = path.startswith('/')
      if (initial_slashes and
          path.startswith('//') and not path.startswith('///')):
          initial_slashes = 2
      comps = path.split('/')
      new_comps = []
      for comp in comps:
          if comp in ('', '.'):
              continue
          if (comp != '..' or (not initial_slashes and not new_comps) or
               (new_comps and new_comps[-1] == '..')):
              new_comps.append(comp)
          elif new_comps:
              new_comps.pop()
      comps = new_comps
      path = '/'.join(comps)
      if initial_slashes:
          path = '/'*initial_slashes + path
      return path or '.'

  def abspath(path):
      if not path.startswith('/'):
          path = join(os.getcwd(), path)
      return normpath(path)
  \<close>
  The current working directory, which \<^verbatim>\<open>os.getcwd()\<close> reads from the process, is
  an argument of the model.
\<close>

definition startswith :: "string \<Rightarrow> string \<Rightarrow> bool" where
  "startswith s p = (take (length p) s = p)"

definition endswith :: "string \<Rightarrow> string \<Rightarrow> bool" where
  "endswith s p = (length p \<le> length s \<and> drop (length s - length p) s = p)"

definition path_join :: "string \<Rightarrow> string \<Rightarrow> string" where
  "path_join a b =
     (if startswith b ''/'' then b
      else if a = [] \<or> endswith a ''/'' then a @ b
      else a @ ''/'' @ b)"

text \<open>\<^verbatim>\<open>path.split('/')\<close>: the pieces between the separators, empty ones included.\<close>

fun split_on :: "char \<Rightarrow> string \<Rightarrow> string list" where
  "split_on c [] = [[]]"
| "split_on c (x # xs) =
     (if x = c then [] # split_on c xs
      else (case split_on c xs of
              [] \<Rightarrow> [[x]]
            | y # ys \<Rightarrow> (x # y) # ys))"

text \<open>\<^verbatim>\<open>'/'.join(comps)\<close>.\<close>

fun str_join :: "string \<Rightarrow> string list \<Rightarrow> string" where
  "str_join s [] = []"
| "str_join s [x] = x"
| "str_join s (x # y # ys) = x @ s @ str_join s (y # ys)"

definition initial_slashes :: "string \<Rightarrow> nat" where
  "initial_slashes p =
     (if startswith p ''/'' then
        (if startswith p ''//'' \<and> \<not> startswith p ''///'' then 2 else 1)
      else 0)"

text \<open>One iteration of the loop over \<^verbatim>\<open>comps\<close>, on the list \<^verbatim>\<open>new_comps\<close>
  (\<open>c\<close> is the loop variable \<^verbatim>\<open>comp\<close>).\<close>

definition norm_step :: "nat \<Rightarrow> string list \<Rightarrow> string \<Rightarrow> string list" where
  "norm_step slashes new_comps c =
     (if c = [] \<or> c = ''.'' then new_comps
      else if c \<noteq> ''..'' \<or> (slashes = 0 \<and> new_comps = [])
              \<or> (new_comps \<noteq> [] \<and> last new_comps = ''..'')
        then new_comps @ [c]
      else if new_comps \<noteq> [] then butlast new_comps
      else new_comps)"

definition normpath :: "string \<Rightarrow> string" where
  "normpath p =
     (if p = [] then ''.''
      else
        (let slashes = initial_slashes p;
             comps = foldl (norm_step slashes) [] (split_on CHR ''/'' p);
             joined = replicate slashes CHR ''/'' @ str_join ''/'' comps
         in if joined = [] then ''.'' else joined))"

definition abspath :: "string \<Rightarrow> string \<Rightarrow> string" where
  "abspath getcwd p =
     normpath (if \<not> startswith p ''/'' then path_join getcwd p else p)"

text \<open>Path components as \<^verbatim>\<open>normpath\<close> keeps them: not empty and without a separator.\<close>

definition clean_comps :: "string list \<Rightarrow> bool" where
  "clean_comps comps = (\<forall>x \<in> set comps. x \<noteq> [] \<and> CHR ''/'' \<notin> set x)"

subsection \<open>The world of a run\<close>

text \<open>
  The failures a step can raise, in the specification's taxonomy (the library raises
  them as its own \<^verbatim>\<open>Error\<close> and \<^verbatim>\<open>TimeoutError\<close>).
\<close>

datatype error =
    LaunchFailure
  | NavigationFailure
  | SelectorNotFoundError
  | FileWriteError
  | TimeoutError

text \<open>
  A document is the list of its elements in document order; an element has an id and a
  text content. A screenshot file records the area that was captured and the document as
  it was at the moment of capture.
\<close>

record element =
  elem_id :: string
  text_content :: string

type_synonym document = "element list"

datatype capture_area = Viewport | FullPage

record png =
  area :: capture_area
  rendered :: document

text \<open>
  The keyword arguments of \<^verbatim>\<open>page.screenshot\<close> that matter here; \<open>None\<close> is an
  argument the caller does not pass.
\<close>

record screenshot_args =
  path :: "string option"
  full_page :: "bool option"

text \<open>
  The calls into the library: \<open>Start\<close> and \<open>Stop\<close> are the entry and the exit of
  the context manager \<^verbatim>\<open>async_playwright()\<close>. The trace of a run lists, for every
  call, when it was issued and how it ended.
\<close>

datatype call =
    Start
  | Launch
  | NewPage
  | Goto string
  | EvalOnSelector string
  | Screenshot screenshot_args
  | Close
  | Stop

datatype event =
    Issued call
  | Completed call
  | Raised call error

text \<open>
  What a run cannot decide is the environment's: the current working directory, the
  document behind each URL (\<open>None\<close> where nothing can be loaded), and for every call
  whether the browser fails it (a time-out, a file that cannot be written, a process that
  cannot be started).
\<close>

record env =
  cwd :: string
  served :: "string \<Rightarrow> document option"
  faults :: "call \<Rightarrow> error option"

record world =
  fs :: "string \<Rightarrow> png option"
  driver :: bool
  browser :: bool
  document :: document
  trace :: "event list"

type_synonym stmt = "world \<Rightarrow> error option \<times> world"

definition log :: "event \<Rightarrow> world \<Rightarrow> world" where
  "log ev w = w\<lparr>trace := trace w @ [ev]\<rparr>"

text \<open>
  An awaited library call: it is issued, and the task is suspended until the call has
  completed or raised.
\<close>

definition invoke :: "env \<Rightarrow> call \<Rightarrow> (world \<Rightarrow> error + world) \<Rightarrow> stmt" where
  "invoke e c effect w =
     (let w1 = log (Issued c) w in
      case faults e c of
        Some err \<Rightarrow> (Some err, log (Raised c err) w1)
      | None \<Rightarrow>
          (case effect w1 of
             Inl err \<Rightarrow> (Some err, log (Raised c err) w1)
           | Inr w2 \<Rightarrow> (None, log (Completed c) w2)))"

text \<open>Two statements in a row: the second runs only if the first raised nothing.\<close>

definition seq :: "stmt \<Rightarrow> stmt \<Rightarrow> stmt" where
  "seq f g w =
     (case f w of
        (Some err, w1) \<Rightarrow> (Some err, w1)
      | (None, w1) \<Rightarrow> g w1)"

subsection \<open>The browser-automation library\<close>

text \<open>
  Modelled from the spec: the library (Playwright) is not part of the repository. The
  specification names its operations (launch-session, open-page, navigate, evaluate on
  selector, screenshot, close-session) and what they do: navigation loads the document
  behind the URL or fails; evaluation on a selector fails with SelectorNotFoundError when
  no element matches and otherwise runs the script on the first matching element; a
  screenshot creates or overwrites the file at its path; a failure to write and a time-out
  are failures of the call. Only id selectors (\<^verbatim>\<open>#name\<close>) are modelled.
\<close>

definition start :: "env \<Rightarrow> stmt" where
  "start e = invoke e Start (\<lambda>w. Inr (w\<lparr>driver := True\<rparr>))"

definition launch :: "env \<Rightarrow> stmt" where
  "launch e = invoke e Launch (\<lambda>w. Inr (w\<lparr>browser := True\<rparr>))"

definition new_page :: "env \<Rightarrow> stmt" where
  "new_page e = invoke e NewPage (\<lambda>w. Inr (w\<lparr>document := []\<rparr>))"

definition goto :: "env \<Rightarrow> string \<Rightarrow> stmt" where
  "goto e url =
     invoke e (Goto url)
       (\<lambda>w. case served e url of
               None \<Rightarrow> Inl NavigationFailure
             | Some d \<Rightarrow> Inr (w\<lparr>document := d\<rparr>))"

definition matches :: "string \<Rightarrow> element \<Rightarrow> bool" where
  "matches selector el = (selector = CHR ''#'' # elem_id el)"

fun query_selector :: "string \<Rightarrow> document \<Rightarrow> element option" where
  "query_selector selector [] = None"
| "query_selector selector (el # els) =
     (if matches selector el then Some el else query_selector selector els)"

fun on_first_match :: "string \<Rightarrow> (element \<Rightarrow> element) \<Rightarrow> document \<Rightarrow> document option" where
  "on_first_match selector f [] = None"
| "on_first_match selector f (el # els) =
     (if matches selector el then Some (f el # els)
      else map_option ((#) el) (on_first_match selector f els))"

definition eval_on_selector :: "env \<Rightarrow> string \<Rightarrow> (element \<Rightarrow> element) \<Rightarrow> stmt" where
  "eval_on_selector e selector script =
     invoke e (EvalOnSelector selector)
       (\<lambda>w. case on_first_match selector script (document w) of
               None \<Rightarrow> Inl SelectorNotFoundError
             | Some d \<Rightarrow> Inr (w\<lparr>document := d\<rparr>))"

text \<open>
  The library's \<^verbatim>\<open>full_page\<close> is documented as: "When true, takes a screenshot of the
  full scrollable page, instead of the currently visible viewport. Defaults to false."
\<close>

definition captured :: "screenshot_args \<Rightarrow> capture_area" where
  "captured a = (if full_page a = Some True then FullPage else Viewport)"

definition screenshot :: "env \<Rightarrow> screenshot_args \<Rightarrow> stmt" where
  "screenshot e a =
     invoke e (Screenshot a)
       (\<lambda>w. let img = \<lparr>area = captured a, rendered = document w\<rparr>
            in Inr (case path a of
                      None \<Rightarrow> w
                    | Some f \<Rightarrow> w\<lparr>fs := (fs w)(f \<mapsto> img)\<rparr>))"

definition close :: "env \<Rightarrow> stmt" where
  "close e = invoke e Close (\<lambda>w. Inr (w\<lparr>browser := False\<rparr>))"

text \<open>
  The exit of the context manager stops the driver process and with it the browser it
  launched. It returns \<^verbatim>\<open>None\<close>, so it suppresses no exception.
\<close>

definition stop :: "world \<Rightarrow> world" where
  "stop w = log (Completed Stop) ((log (Issued Stop) w)\<lparr>driver := False, browser := False\<rparr>)"

subsection \<open>The script\<close>

definition modal_path :: "env \<Rightarrow> string" where
  "modal_path e = ''file://'' @ abspath (cwd e) ''modal.html''"

text \<open>The JavaScript \<^verbatim>\<open>(el) => { el.textContent = 'OCRing with gpt-4o...'; }\<close>.\<close>

definition status_script :: "element \<Rightarrow> element" where
  "status_script el = el\<lparr>text_content := ''OCRing with gpt-4o...''\<rparr>"

definition output_path :: string where
  "output_path = ''jules-scratch/verification/modal_final_confirmation.png''"

text \<open>The arguments of the script's call \<^verbatim>\<open>page.screenshot(path="...")\<close>.\<close>

definition shot_args :: screenshot_args where
  "shot_args = \<lparr>path = Some output_path, full_page = None\<rparr>"

text \<open>The block under \<^verbatim>\<open>async with\<close>.\<close>

definition body :: "env \<Rightarrow> stmt" where
  "body e =
     seq (launch e)
    (seq (new_page e)
    (seq (goto e (modal_path e))
    (seq (eval_on_selector e ''#api-status'' status_script)
    (seq (screenshot e shot_args)
         (close e)))))"

text \<open>
  \<^verbatim>\<open>async with async_playwright() as p: ...\<close>: if entering the context manager raises,
  nothing was acquired and the exception propagates; otherwise the block runs, the exit
  of the context manager runs whether the block raised or not, and the block's exception,
  if any, propagates.
\<close>

definition main :: "env \<Rightarrow> stmt" where
  "main e w =
     (case start e w of
        (Some err, w1) \<Rightarrow> (Some err, w1)
      | (None, w1) \<Rightarrow> (case body e w1 of (r, w2) \<Rightarrow> (r, stop w2)))"

text \<open>
  The module's top level, with \<^verbatim>\<open>__name__\<close> as an argument: \<^verbatim>\<open>asyncio.run\<close>
  runs the coroutine to its end and re-raises what it raised.
\<close>

definition verify_modal :: "env \<Rightarrow> string \<Rightarrow> stmt" where
  "verify_modal e name w = (if name = ''__main__'' then main e w else (None, w))"

text \<open>
  A process starts with the files that are there, no browser and an empty trace. The
  interpreter exits with status 1 on an unhandled exception and 0 otherwise.
\<close>

definition fresh :: "(string \<Rightarrow> png option) \<Rightarrow> world" where
  "fresh files = \<lparr>fs = files, driver = False, browser = False, document = [], trace = []\<rparr>"

definition exit_status :: "error option \<Rightarrow> nat" where
  "exit_status r = (case r of None \<Rightarrow> 0 | Some err \<Rightarrow> 1)"

definition run :: "env \<Rightarrow> (string \<Rightarrow> png option) \<Rightarrow> error option \<times> world" where
  "run e files = verify_modal e ''__main__'' (fresh files)"

subsection \<open>Properties of a trace\<close>

text \<open>
  \<open>sequential evs pending\<close>: read from left to right, starting with the call \<open>pending\<close>
  in flight (if any), a call is issued only when none is in flight, the next event after it
  is its own completion or failure, and nothing is in flight at the end.
\<close>

primrec sequential :: "event list \<Rightarrow> call option \<Rightarrow> bool" where
  "sequential [] pending = (pending = None)"
| "sequential (ev # evs) pending =
     (case ev of
        Issued c \<Rightarrow> pending = None \<and> sequential evs (Some c)
      | Completed c \<Rightarrow> pending = Some c \<and> sequential evs None
      | Raised c err \<Rightarrow> pending = Some c \<and> sequential evs None)"

text \<open>\<open>precedes a later evs\<close>: no event of the kind \<open>later\<close> stands before the first \<open>a\<close>.\<close>

primrec precedes :: "event \<Rightarrow> (event \<Rightarrow> bool) \<Rightarrow> event list \<Rightarrow> bool" where
  "precedes a later [] = True"
| "precedes a later (ev # evs) = (ev = a \<or> (\<not> later ev \<and> precedes a later evs))"

fun issues_eval :: "event \<Rightarrow> bool" where
  "issues_eval (Issued (EvalOnSelector s)) = True"
| "issues_eval ev = False"

fun issues_screenshot :: "event \<Rightarrow> bool" where
  "issues_screenshot (Issued (Screenshot a)) = True"
| "issues_screenshot ev = False"

text \<open>The failures raised in a trace, in order.\<close>

fun raised :: "event list \<Rightarrow> error list" where
  "raised [] = []"
| "raised (Raised c err # evs) = err # raised evs"
| "raised (ev # evs) = raised evs"

text \<open>The events that follow the first failure of a trace.\<close>

fun after_failure :: "event list \<Rightarrow> event list" where
  "after_failure [] = []"
| "after_failure (Raised c err # evs) = evs"
| "after_failure (ev # evs) = after_failure evs"

subsection \<open>Sample environments\<close>

text \<open>
  A \<^verbatim>\<open>modal.html\<close> with the status element and one without it, in the directory
  \<^verbatim>\<open>/home/u/proj\<close>; an environment whose browser cannot write the screenshot; and a
  working directory whose name has a space, a hash and a percent sign.
\<close>

definition demo_page :: document where
  "demo_page =
     [\<lparr>elem_id = ''title'', text_content = ''Calendar capture''\<rparr>,
      \<lparr>elem_id = ''api-status'', text_content = ''Idle''\<rparr>]"

definition bare_page :: document where
  "bare_page = [\<lparr>elem_id = ''title'', text_content = ''Calendar capture''\<rparr>]"

definition demo_env :: env where
  "demo_env =
     \<lparr>cwd = ''/home/u/proj'',
      served = (\<lambda>url. if url = ''file:///home/u/proj/modal.html'' then Some demo_page else None),
      faults = (\<lambda>c. None)\<rparr>"

definition bare_env :: env where
  "bare_env =
     \<lparr>cwd = ''/home/u/proj'',
      served = (\<lambda>url. if url = ''file:///home/u/proj/modal.html'' then Some bare_page else None),
      faults = (\<lambda>c. None)\<rparr>"

definition denied_env :: env where
  "denied_env =
     \<lparr>cwd = ''/home/u/proj'',
      served = (\<lambda>url. if url = ''file:///home/u/proj/modal.html'' then Some demo_page else None),
      faults = (\<lambda>c. case c of Screenshot a \<Rightarrow> Some FileWriteError | _ \<Rightarrow> None)\<rparr>"

definition odd_env :: env where
  "odd_env = \<lparr>cwd = ''/tmp/a b#c%20'', served = (\<lambda>url. None), faults = (\<lambda>c. None)\<rparr>"

definition old_png :: png where
  "old_png = \<lparr>area = FullPage, rendered = []\<rparr>"

section \<open>Lemmas\<close>

lemmas script_defs =
  run_def verify_modal_def main_def body_def seq_def invoke_def start_def launch_def
  new_page_def goto_def eval_on_selector_def screenshot_def close_def stop_def log_def
  fresh_def Let_def

lemmas path_defs =
  abspath_def normpath_def path_join_def startswith_def endswith_def initial_slashes_def
  norm_step_def

lemma abspath_proj: "abspath ''/home/u/proj'' ''modal.html'' = ''/home/u/proj/modal.html''"
  by (simp add: path_defs)

lemma abspath_odd: "abspath ''/tmp/a b#c%20'' ''modal.html'' = ''/tmp/a b#c%20/modal.html''"
  by (simp add: path_defs)

lemmas sample_defs =
  demo_env_def bare_env_def denied_env_def odd_env_def demo_page_def bare_page_def
  modal_path_def abspath_proj abspath_odd matches_def shot_args_def status_script_def
  captured_def output_path_def

lemma startswith_slash: "startswith p ''/'' = (\<exists>q. p = CHR ''/'' # q)"
  by (cases p) (auto simp: startswith_def)

lemma normpath_slash: "startswith p ''/'' \<Longrightarrow> startswith (normpath p) ''/''"
  by (auto simp: normpath_def startswith_slash initial_slashes_def Let_def eval_nat_numeral)

lemma path_join_slash: "startswith a ''/'' \<Longrightarrow> startswith (path_join a ''modal.html'') ''/''"
  by (auto simp: path_join_def startswith_slash)

lemma abspath_slash: "startswith d ''/'' \<Longrightarrow> startswith (abspath d ''modal.html'') ''/''"
  unfolding abspath_def using normpath_slash [OF path_join_slash]
  by (simp add: startswith_def)

text \<open>
  For a working directory as \<^verbatim>\<open>os.getcwd()\<close> returns it (absolute and normalised),
  the absolute path of \<^verbatim>\<open>modal.html\<close> is the directory joined with the file name.
\<close>

lemma split_on_nonempty: "split_on c s \<noteq> []"
  by (induction s) (auto split: list.splits)

lemma split_on_no_sep: "c \<notin> set b \<Longrightarrow> split_on c b = [b]"
  by (induction b) auto

lemma split_on_append_sep:
  "c \<notin> set b \<Longrightarrow> split_on c (a @ c # b) = split_on c a @ [b]"
proof (induction a)
  case Nil
  then show ?case by (simp add: split_on_no_sep)
next
  case (Cons x xs)
  then show ?case
    using split_on_nonempty [of c xs] by (cases "split_on c xs") auto
qed

lemma split_on_pieces: "x \<in> set (split_on c s) \<Longrightarrow> c \<notin> set x"
proof (induction s arbitrary: x)
  case Nil
  then show ?case by simp
next
  case (Cons y ys)
  then show ?case
    by (cases "split_on c ys") (auto split: if_splits)
qed

lemma clean_comps_norm_step:
  "clean_comps comps \<Longrightarrow> CHR ''/'' \<notin> set x \<Longrightarrow> clean_comps (norm_step k comps x)"
  by (auto simp: clean_comps_def norm_step_def dest: in_set_butlastD)

lemma clean_comps_foldl:
  "clean_comps comps \<Longrightarrow> \<forall>x \<in> set xs. CHR ''/'' \<notin> set x \<Longrightarrow> clean_comps (foldl (norm_step k) comps xs)"
  by (induction xs arbitrary: comps) (auto simp: clean_comps_norm_step)

lemma str_join_snoc:
  "str_join s (xs @ [x]) = (if xs = [] then x else str_join s xs @ s @ x)"
  by (induction s xs rule: str_join.induct) auto

lemma str_join_last_general:
  "\<forall>x \<in> set comps. x \<noteq> [] \<Longrightarrow> comps \<noteq> [] \<Longrightarrow>
     str_join s comps \<noteq> [] \<and> last (str_join s comps) = last (last comps)"
  by (induction s comps rule: str_join.induct) auto

lemma str_join_last:
  assumes "clean_comps comps" and "comps \<noteq> []"
  shows "str_join ''/'' comps \<noteq> [] \<and> last (str_join ''/'' comps) \<noteq> CHR ''/''"
proof -
  from assms have "last comps \<in> set comps" by simp
  with assms(1) have "last comps \<noteq> []" "CHR ''/'' \<notin> set (last comps)"
    by (auto simp: clean_comps_def)
  then have "last (last comps) \<noteq> CHR ''/''"
    by (metis last_in_set)
  moreover from assms have "\<forall>x \<in> set comps. x \<noteq> []"
    by (simp add: clean_comps_def)
  ultimately show ?thesis
    using str_join_last_general [of comps "''/''"] assms(2) by simp
qed

lemma initial_slashes_join:
  "startswith d ''/'' \<Longrightarrow> initial_slashes (path_join d ''modal.html'') = initial_slashes d"
proof -
  assume "startswith d ''/''"
  then obtain q where d: "d = CHR ''/'' # q"
    by (cases d) (auto simp: startswith_def)
  show ?thesis
  proof (cases q)
    case Nil
    with d show ?thesis
      by (simp add: path_join_def initial_slashes_def startswith_def endswith_def)
  next
    case (Cons x xs)
    note q = this
    show ?thesis
    proof (cases xs)
      case Nil
      with d q show ?thesis
        by (auto simp: path_join_def initial_slashes_def startswith_def endswith_def)
    next
      case (Cons y ys)
      with d q show ?thesis
        by (auto simp: path_join_def initial_slashes_def startswith_def endswith_def)
    qed
  qed
qed

lemma endswith_slash: "endswith d ''/'' = (\<exists>q. d = q @ ''/'')"
proof
  assume "endswith d ''/''"
  then have "d \<noteq> []" "last d = CHR ''/''"
    by (auto simp: endswith_def last_drop dest: arg_cong [where f = last])
  then have "d = butlast d @ ''/''"
    by (metis append_butlast_last_id)
  then show "\<exists>q. d = q @ ''/''" ..
next
  assume "\<exists>q. d = q @ ''/''"
  then show "endswith d ''/''" by (auto simp: endswith_def)
qed

lemma comps_join:
  "foldl (norm_step k) [] (split_on CHR ''/'' (path_join d ''modal.html'')) =
     foldl (norm_step k) [] (split_on CHR ''/'' d) @ [''modal.html'']"
proof (cases "endswith d ''/''")
  case True
  then obtain q where q: "d = q @ ''/''"
    by (auto simp: endswith_slash)
  have "split_on CHR ''/'' (q @ CHR ''/'' # ''modal.html'') = split_on CHR ''/'' q @ [''modal.html'']"
    by (rule split_on_append_sep) simp
  moreover have "split_on CHR ''/'' (q @ CHR ''/'' # []) = split_on CHR ''/'' q @ [[]]"
    by (rule split_on_append_sep) simp
  ultimately show ?thesis using True q
    by (simp add: path_join_def startswith_def norm_step_def)
next
  case False
  have "split_on CHR ''/'' (d @ CHR ''/'' # ''modal.html'') = split_on CHR ''/'' d @ [''modal.html'']"
    by (rule split_on_append_sep) simp
  moreover have "d \<noteq> [] \<Longrightarrow> path_join d ''modal.html'' = d @ CHR ''/'' # ''modal.html''"
    using False by (simp add: path_join_def startswith_def)
  moreover have "d = [] \<Longrightarrow> ?thesis"
    by (simp add: path_join_def startswith_def norm_step_def)
  ultimately show ?thesis
    by (cases "d = []") (simp_all add: norm_step_def)
qed

lemma normpath_absolute:
  "startswith d ''/'' \<Longrightarrow>
     normpath d = replicate (initial_slashes d) CHR ''/''
                    @ str_join ''/'' (foldl (norm_step (initial_slashes d)) [] (split_on CHR ''/'' d))"
  by (cases d) (auto simp: normpath_def Let_def initial_slashes_def startswith_def)

lemma abspath_normalised_cwd:
  assumes abs: "startswith d ''/''" and norm: "normpath d = d"
  shows "abspath d ''modal.html'' = path_join d ''modal.html''"
proof -
  let ?k = "initial_slashes d"
  let ?comps = "foldl (norm_step ?k) [] (split_on CHR ''/'' d)"
  have d: "d = replicate ?k CHR ''/'' @ str_join ''/'' ?comps"
    using normpath_absolute [OF abs] norm by simp
  have k: "0 < ?k"
    using abs by (simp add: initial_slashes_def)
  have "clean_comps ?comps"
    by (rule clean_comps_foldl) (auto simp: clean_comps_def dest: split_on_pieces)
  have ends: "endswith d ''/'' = (?comps = [])"
  proof (cases "?comps = []")
    case True
    with d have "d = replicate ?k CHR ''/''" by simp
    moreover from k obtain j where "?k = Suc j" by (cases ?k) auto
    ultimately have "d = replicate j CHR ''/'' @ ''/''"
      by (simp add: replicate_append_same)
    with True show ?thesis by (auto simp: endswith_slash)
  next
    case False
    with \<open>clean_comps ?comps\<close> have "str_join ''/'' ?comps \<noteq> []" "last (str_join ''/'' ?comps) \<noteq> CHR ''/''"
      using str_join_last by blast+
    then have "last (replicate ?k CHR ''/'' @ str_join ''/'' ?comps) \<noteq> CHR ''/''"
      by simp
    with d have "last d \<noteq> CHR ''/''" by simp
    with False show ?thesis by (auto simp: endswith_slash)
  qed
  have abs': "startswith (path_join d ''modal.html'') ''/''"
    using abs by (rule path_join_slash)
  have "abspath d ''modal.html'' = normpath (path_join d ''modal.html'')"
    by (simp add: abspath_def startswith_def)
  also have "\<dots> = replicate ?k CHR ''/'' @ str_join ''/'' (?comps @ [''modal.html''])"
    using normpath_absolute [OF abs'] by (simp add: initial_slashes_join [OF abs] comps_join)
  also have "\<dots> = path_join d ''modal.html''"
  proof (cases "?comps = []")
    case True
    with d have "d = replicate ?k CHR ''/''" by simp
    with True ends show ?thesis
      by (simp add: path_join_def startswith_def)
  next
    case False
    with ends have "\<not> endswith d ''/''" by simp
    moreover from abs have "d \<noteq> []" by (auto simp: startswith_def)
    ultimately have "path_join d ''modal.html'' = d @ ''/'' @ ''modal.html''"
      by (simp add: path_join_def startswith_def)
    also have "\<dots> = (replicate ?k CHR ''/'' @ str_join ''/'' ?comps) @ ''/'' @ ''modal.html''"
      using d by simp
    finally show ?thesis using False by (simp add: str_join_snoc)
  qed
  finally show ?thesis .
qed

lemma on_first_match_None:
  "(on_first_match sel f d = None) = (query_selector sel d = None)"
  by (induction d) auto

lemma matches_status_script: "matches sel (status_script el) = matches sel el"
  by (simp add: matches_def status_script_def)

lemma on_first_match_status:
  "on_first_match sel status_script d = Some d' \<Longrightarrow>
     map_option text_content (query_selector sel d') = Some ''OCRing with gpt-4o...''"
proof (induction d arbitrary: d')
  case Nil
  then show ?case by simp
next
  case (Cons el els)
  show ?case
  proof (cases "matches sel el")
    case True
    with Cons.prems have "d' = status_script el # els" by simp
    with True show ?thesis
      by (simp add: matches_status_script) (simp add: status_script_def)
  next
    case False
    with Cons.prems obtain ds
      where ds: "on_first_match sel status_script els = Some ds" "d' = el # ds"
      by auto
    from Cons.IH [OF ds(1)] False ds(2) show ?thesis by simp
  qed
qed

section \<open>The claims\<close>

text \<open>
  C1. Once the context manager is entered, every run ends with its exit, whatever the
  block did: after launch, navigation, the mutation, the screenshot or the close raised,
  and after all of them succeeded, the last two events of the run are the stop of the
  session, and no driver and no browser process is left. (The explicit
  \<^verbatim>\<open>browser.close()\<close> is the last statement of the block and is reached only when
  nothing raised; the release on the failing paths is the exit of
  \<^verbatim>\<open>async with\<close>.)
\<close>

theorem session_released_on_every_exit:
  "faults e Start = None \<Longrightarrow>
     (\<exists>mid. trace (snd (main e w)) =
        trace w @ Issued Start # Completed Start # mid @ [Issued Stop, Completed Stop])
     \<and> \<not> driver (snd (main e w)) \<and> \<not> browser (snd (main e w))"
  by (auto simp: script_defs split: option.splits sum.splits)

text \<open>The screenshot cannot be written: the run fails, and the session is still stopped.\<close>

theorem session_released_witness:
  "faults denied_env Start = None
   \<and> fst (main denied_env (fresh Map.empty)) = Some FileWriteError
   \<and> (\<exists>mid. trace (snd (main denied_env (fresh Map.empty))) =
         trace (fresh Map.empty) @ Issued Start # Completed Start # mid @ [Issued Stop, Completed Stop])
   \<and> \<not> driver (snd (main denied_env (fresh Map.empty)))
   \<and> \<not> browser (snd (main denied_env (fresh Map.empty)))"
proof -
  have h: "faults denied_env Start = None"
    by (simp add: denied_env_def)
  have r: "fst (main denied_env (fresh Map.empty)) = Some FileWriteError"
    by (simp add: script_defs sample_defs)
  from session_released_on_every_exit [OF h, of "fresh Map.empty"] h r
  show ?thesis by simp
qed

text \<open>
  C2 (amended). The only screenshot call a run issues passes the fixed output path and no
  \<^verbatim>\<open>full_page\<close>, so the library captures the viewport. When that call completes, the
  files after the run are the files before it with the file at the output path created or
  replaced by the capture; otherwise the files are unchanged.
\<close>

theorem screenshot_viewport_to_fixed_path:
  "fs (snd (run e files)) =
     (if Completed (Screenshot shot_args) \<in> set (trace (snd (run e files)))
      then files(output_path \<mapsto> \<lparr>area = Viewport, rendered = document (snd (run e files))\<rparr>)
      else files)
   \<and> (\<forall>a. Issued (Screenshot a) \<in> set (trace (snd (run e files))) \<longrightarrow>
         a = \<lparr>path = Some output_path, full_page = None\<rparr>)"
  by (auto simp add: script_defs shot_args_def captured_def split: option.splits sum.splits)

text \<open>An older file at the output path is replaced.\<close>

theorem screenshot_viewport_witness:
  "Issued (Screenshot shot_args) \<in> set (trace (snd (run demo_env [output_path \<mapsto> old_png])))
   \<and> shot_args = \<lparr>path = Some output_path, full_page = None\<rparr>
   \<and> Completed (Screenshot shot_args) \<in> set (trace (snd (run demo_env [output_path \<mapsto> old_png])))
   \<and> fs (snd (run demo_env [output_path \<mapsto> old_png])) =
       [output_path \<mapsto>
          \<lparr>area = Viewport, rendered = document (snd (run demo_env [output_path \<mapsto> old_png]))\<rparr>]"
proof -
  have i: "Issued (Screenshot shot_args) \<in> set (trace (snd (run demo_env [output_path \<mapsto> old_png])))"
    by (simp add: script_defs sample_defs)
  have c: "Completed (Screenshot shot_args) \<in> set (trace (snd (run demo_env [output_path \<mapsto> old_png])))"
    by (simp add: script_defs sample_defs)
  from screenshot_viewport_to_fixed_path [of demo_env "[output_path \<mapsto> old_png]"] i c
  show ?thesis by simp
qed

text \<open>
  C2 as stated fails: in a successful run the capture written to the output path is
  of the viewport, not of the full page.
\<close>

theorem screenshot_full_page_counterexample:
  "fst (run demo_env Map.empty) = None
   \<and> Issued (Screenshot \<lparr>path = Some output_path, full_page = None\<rparr>)
       \<in> set (trace (snd (run demo_env Map.empty)))
   \<and> map_option area (fs (snd (run demo_env Map.empty)) output_path) = Some Viewport
   \<and> map_option area (fs (snd (run demo_env Map.empty)) output_path) \<noteq> Some FullPage"
  by (simp add: script_defs sample_defs)

text \<open>
  C3. When the session starts, the page opens and the navigation loads a document with no
  element matching \<^verbatim>\<open>#api-status\<close>, the run fails with SelectorNotFoundError, raised by
  the evaluation on the selector; the only call issued after it is the stop of the session,
  so no screenshot is issued and the files are unchanged.
\<close>

theorem missing_status_element_aborts:
  "faults e Start = None \<Longrightarrow> faults e Launch = None \<Longrightarrow> faults e NewPage = None \<Longrightarrow>
   faults e (Goto (modal_path e)) = None \<Longrightarrow> served e (modal_path e) = Some d \<Longrightarrow>
   query_selector ''#api-status'' d = None \<Longrightarrow>
   faults e (EvalOnSelector ''#api-status'') = None \<Longrightarrow>
     fst (main e w) = Some SelectorNotFoundError
     \<and> fs (snd (main e w)) = fs w
     \<and> trace (snd (main e w)) = trace w @
         [Issued Start, Completed Start, Issued Launch, Completed Launch,
          Issued NewPage, Completed NewPage,
          Issued (Goto (modal_path e)), Completed (Goto (modal_path e)),
          Issued (EvalOnSelector ''#api-status''),
          Raised (EvalOnSelector ''#api-status'') SelectorNotFoundError,
          Issued Stop, Completed Stop]"
  using on_first_match_None [of "''#api-status''" status_script d]
  by (simp add: script_defs)

theorem missing_status_element_witness:
  "faults bare_env Start = None \<and> faults bare_env Launch = None \<and> faults bare_env NewPage = None
   \<and> faults bare_env (Goto (modal_path bare_env)) = None
   \<and> served bare_env (modal_path bare_env) = Some bare_page
   \<and> query_selector ''#api-status'' bare_page = None
   \<and> faults bare_env (EvalOnSelector ''#api-status'') = None
   \<and> fst (main bare_env (fresh Map.empty)) = Some SelectorNotFoundError
   \<and> fs (snd (main bare_env (fresh Map.empty))) = Map.empty
   \<and> trace (snd (main bare_env (fresh Map.empty))) =
         [Issued Start, Completed Start, Issued Launch, Completed Launch,
          Issued NewPage, Completed NewPage,
          Issued (Goto ''file:///home/u/proj/modal.html''),
          Completed (Goto ''file:///home/u/proj/modal.html''),
          Issued (EvalOnSelector ''#api-status''),
          Raised (EvalOnSelector ''#api-status'') SelectorNotFoundError,
          Issued Stop, Completed Stop]"
proof -
  have f: "faults bare_env = (\<lambda>c. None)"
    by (simp add: bare_env_def)
  have m: "modal_path bare_env = ''file:///home/u/proj/modal.html''"
    by (simp add: sample_defs)
  have s: "served bare_env (modal_path bare_env) = Some bare_page"
    unfolding m by (simp add: bare_env_def)
  have q: "query_selector ''#api-status'' bare_page = None"
    by (simp add: bare_page_def matches_def)
  from missing_status_element_aborts [of bare_env bare_page "fresh Map.empty", OF _ _ _ _ s q]
  have "fst (main bare_env (fresh Map.empty)) = Some SelectorNotFoundError
     \<and> fs (snd (main bare_env (fresh Map.empty))) = fs (fresh Map.empty)
     \<and> trace (snd (main bare_env (fresh Map.empty))) = trace (fresh Map.empty) @
         [Issued Start, Completed Start, Issued Launch, Completed Launch,
          Issued NewPage, Completed NewPage,
          Issued (Goto (modal_path bare_env)), Completed (Goto (modal_path bare_env)),
          Issued (EvalOnSelector ''#api-status''),
          Raised (EvalOnSelector ''#api-status'') SelectorNotFoundError,
          Issued Stop, Completed Stop]"
    by (simp add: f)
  with f m s q show ?thesis
    by (simp add: fresh_def)
qed

text \<open>
  C4. In every run that succeeds, the file at the output path holds a capture in whose
  document the first element matching \<^verbatim>\<open>#api-status\<close> has the text
  \<^verbatim>\<open>OCRing with gpt-4o...\<close>, whatever the loaded document said before.
\<close>

theorem status_text_in_screenshot:
  "fst (main e w) = None \<Longrightarrow>
     \<exists>img. fs (snd (main e w)) output_path = Some img \<and>
       map_option text_content (query_selector ''#api-status'' (rendered img)) =
         Some ''OCRing with gpt-4o...''"
  by (auto simp add: script_defs shot_args_def dest: on_first_match_status
      split: option.splits sum.splits)

text \<open>The loaded document says \<^verbatim>\<open>Idle\<close>; the capture says the literal.\<close>

theorem status_text_witness:
  "fst (main demo_env (fresh Map.empty)) = None
   \<and> map_option text_content (query_selector ''#api-status'' demo_page) = Some ''Idle''
   \<and> (\<exists>img. fs (snd (main demo_env (fresh Map.empty))) output_path = Some img \<and>
         map_option text_content (query_selector ''#api-status'' (rendered img)) =
           Some ''OCRing with gpt-4o...'')"
proof -
  have r: "fst (main demo_env (fresh Map.empty)) = None"
    by (simp add: script_defs sample_defs)
  have p: "map_option text_content (query_selector ''#api-status'' demo_page) = Some ''Idle''"
    by (simp add: demo_page_def matches_def)
  from status_text_in_screenshot [OF r] r p show ?thesis by simp
qed

text \<open>
  C5. In the trace of every run a call is issued only when no call is in flight, and the
  event after it is its own completion or failure; no evaluation on a selector is issued
  before the navigation to the file URL has completed, and no screenshot is issued before
  the evaluation on \<^verbatim>\<open>#api-status\<close> has completed.
\<close>

theorem browser_operations_sequenced:
  "sequential (trace (snd (run e files))) None
   \<and> precedes (Completed (Goto (modal_path e))) issues_eval (trace (snd (run e files)))
   \<and> precedes (Completed (EvalOnSelector ''#api-status'')) issues_screenshot
        (trace (snd (run e files)))"
  by (simp add: script_defs split: option.splits sum.splits)

theorem browser_operations_sequenced_witness:
  "trace (snd (run demo_env Map.empty)) =
     [Issued Start, Completed Start, Issued Launch, Completed Launch,
      Issued NewPage, Completed NewPage,
      Issued (Goto ''file:///home/u/proj/modal.html''),
      Completed (Goto ''file:///home/u/proj/modal.html''),
      Issued (EvalOnSelector ''#api-status''), Completed (EvalOnSelector ''#api-status''),
      Issued (Screenshot shot_args), Completed (Screenshot shot_args),
      Issued Close, Completed Close, Issued Stop, Completed Stop]
   \<and> sequential (trace (snd (run demo_env Map.empty))) None
   \<and> precedes (Completed (Goto (modal_path demo_env))) issues_eval
        (trace (snd (run demo_env Map.empty)))
   \<and> precedes (Completed (EvalOnSelector ''#api-status'')) issues_screenshot
        (trace (snd (run demo_env Map.empty)))"
proof -
  have t: "trace (snd (run demo_env Map.empty)) =
     [Issued Start, Completed Start, Issued Launch, Completed Launch,
      Issued NewPage, Completed NewPage,
      Issued (Goto ''file:///home/u/proj/modal.html''),
      Completed (Goto ''file:///home/u/proj/modal.html''),
      Issued (EvalOnSelector ''#api-status''), Completed (EvalOnSelector ''#api-status''),
      Issued (Screenshot shot_args), Completed (Screenshot shot_args),
      Issued Close, Completed Close, Issued Stop, Completed Stop]"
    by (simp add: script_defs sample_defs)
  from browser_operations_sequenced [of demo_env Map.empty] t show ?thesis
    by blast
qed

text \<open>
  C6. Every navigation a run issues goes to \<^verbatim>\<open>file://\<close> followed by the absolute path
  of \<^verbatim>\<open>modal.html\<close> resolved against the current working directory, and a run issues
  that navigation as soon as the session has started and the page is open. For a working
  directory that is absolute and normalised, that path is the directory joined with
  \<^verbatim>\<open>modal.html\<close>.
\<close>

theorem navigation_target:
  "(\<forall>url. Issued (Goto url) \<in> set (trace (snd (run e files))) \<longrightarrow>
      url = ''file://'' @ abspath (cwd e) ''modal.html'')
   \<and> (faults e Start = None \<and> faults e Launch = None \<and> faults e NewPage = None \<longrightarrow>
        Issued (Goto (''file://'' @ abspath (cwd e) ''modal.html''))
          \<in> set (trace (snd (run e files))))
   \<and> (startswith (cwd e) ''/'' \<and> normpath (cwd e) = cwd e \<longrightarrow>
        abspath (cwd e) ''modal.html'' = path_join (cwd e) ''modal.html'')"
proof -
  have "\<forall>url. Issued (Goto url) \<in> set (trace (snd (run e files))) \<longrightarrow>
      url = ''file://'' @ abspath (cwd e) ''modal.html''"
    by (auto simp add: script_defs modal_path_def split: option.splits sum.splits)
  moreover have "faults e Start = None \<and> faults e Launch = None \<and> faults e NewPage = None \<longrightarrow>
        Issued (Goto (''file://'' @ abspath (cwd e) ''modal.html''))
          \<in> set (trace (snd (run e files)))"
    by (auto simp add: script_defs modal_path_def split: option.splits sum.splits)
  moreover have "startswith (cwd e) ''/'' \<and> normpath (cwd e) = cwd e \<longrightarrow>
        abspath (cwd e) ''modal.html'' = path_join (cwd e) ''modal.html''"
    by (simp add: abspath_normalised_cwd)
  ultimately show ?thesis by blast
qed

theorem navigation_target_witness:
  "faults demo_env Start = None \<and> faults demo_env Launch = None \<and> faults demo_env NewPage = None
   \<and> startswith (cwd demo_env) ''/'' \<and> normpath (cwd demo_env) = cwd demo_env
   \<and> abspath (cwd demo_env) ''modal.html'' = path_join (cwd demo_env) ''modal.html''
   \<and> path_join (cwd demo_env) ''modal.html'' = ''/home/u/proj/modal.html''
   \<and> Issued (Goto ''file:///home/u/proj/modal.html'') \<in> set (trace (snd (run demo_env Map.empty)))"
proof -
  have f: "faults demo_env = (\<lambda>c. None)"
    by (simp add: demo_env_def)
  have a: "startswith (cwd demo_env) ''/''"
    by (simp add: demo_env_def startswith_def)
  have n: "normpath (cwd demo_env) = cwd demo_env"
    by (simp add: demo_env_def path_defs)
  have j: "path_join (cwd demo_env) ''modal.html'' = ''/home/u/proj/modal.html''"
    by (simp add: demo_env_def path_defs)
  have u: "''file://'' @ abspath (cwd demo_env) ''modal.html'' = ''file:///home/u/proj/modal.html''"
    by (simp add: demo_env_def abspath_proj)
  from navigation_target [of demo_env Map.empty] a n
  have p: "abspath (cwd demo_env) ''modal.html'' = path_join (cwd demo_env) ''modal.html''"
    by blast
  from navigation_target [of demo_env Map.empty] f
  have "Issued (Goto (''file://'' @ abspath (cwd demo_env) ''modal.html''))
          \<in> set (trace (snd (run demo_env Map.empty)))"
    by simp
  then have g: "Issued (Goto ''file:///home/u/proj/modal.html'')
          \<in> set (trace (snd (run demo_env Map.empty)))"
    unfolding u .
  from f have "faults demo_env Start = None" "faults demo_env Launch = None"
      "faults demo_env NewPage = None"
    by simp_all
  with a n p j g show ?thesis by blast
qed

text \<open>
  C7. The failures raised during a run are exactly the one that reaches the top level
  (none when the run succeeds): no failure is caught. After a failure nothing runs but the
  exit of the context manager (when it had been entered): no step is retried and none of
  the later steps is issued. The exit status is 0 when nothing was raised and 1 otherwise.
\<close>

theorem failures_propagate_to_exit_status:
  "raised (trace (snd (run e files))) =
     (case fst (run e files) of None \<Rightarrow> [] | Some err \<Rightarrow> [err])
   \<and> (after_failure (trace (snd (run e files))) = []
        \<or> after_failure (trace (snd (run e files))) = [Issued Stop, Completed Stop])
   \<and> exit_status (fst (run e files)) =
       (if raised (trace (snd (run e files))) = [] then 0 else 1)"
  by (simp add: script_defs exit_status_def split: option.splits sum.splits)

theorem failures_propagate_witness:
  "raised (trace (snd (run denied_env Map.empty))) = [FileWriteError]
   \<and> fst (run denied_env Map.empty) = Some FileWriteError
   \<and> after_failure (trace (snd (run denied_env Map.empty))) = [Issued Stop, Completed Stop]
   \<and> exit_status (fst (run denied_env Map.empty)) = 1
   \<and> raised (trace (snd (run demo_env Map.empty))) = []
   \<and> fst (run demo_env Map.empty) = None
   \<and> exit_status (fst (run demo_env Map.empty)) = 0"
proof -
  have a: "fst (run denied_env Map.empty) = Some FileWriteError"
    by (simp add: script_defs sample_defs)
  have b: "fst (run demo_env Map.empty) = None"
    by (simp add: script_defs sample_defs)
  have c: "after_failure (trace (snd (run denied_env Map.empty))) = [Issued Stop, Completed Stop]"
    by (simp add: script_defs sample_defs)
  from failures_propagate_to_exit_status [of denied_env Map.empty]
       failures_propagate_to_exit_status [of demo_env Map.empty] a b c
  show ?thesis by simp
qed

text \<open>
  C8. When a run succeeds, a second run with the same environment on the files the first
  one left succeeds too, leaves the same files (the file at the output path is replaced by
  an equal capture), and the output file is there; a run succeeds or fails the same way
  whatever files were there before it, so an existing output file never makes it fail.
\<close>

theorem second_run_overwrites:
  "fst (run e files) = None \<Longrightarrow>
     fst (run e (fs (snd (run e files)))) = None
     \<and> fs (snd (run e (fs (snd (run e files))))) = fs (snd (run e files))
     \<and> fs (snd (run e files)) output_path \<noteq> None
     \<and> (\<forall>files'. fst (run e files') = None)"
  by (auto simp add: script_defs shot_args_def split: option.splits sum.splits)

theorem second_run_overwrites_witness:
  "fst (run demo_env Map.empty) = None
   \<and> fst (run demo_env (fs (snd (run demo_env Map.empty)))) = None
   \<and> fs (snd (run demo_env (fs (snd (run demo_env Map.empty))))) = fs (snd (run demo_env Map.empty))
   \<and> fs (snd (run demo_env Map.empty)) output_path \<noteq> None
   \<and> fst (run demo_env [output_path \<mapsto> old_png]) = None"
proof -
  have r: "fst (run demo_env Map.empty) = None"
    by (simp add: script_defs sample_defs)
  from second_run_overwrites [OF r] r show ?thesis by simp
qed

text \<open>
  C9. When the current working directory is an absolute POSIX path (it starts with a
  slash), the navigation URL is \<^verbatim>\<open>file://\<close> followed by the absolute path exactly as
  \<^verbatim>\<open>os.path.abspath\<close> returned it (nothing is validated or escaped), that path starts
  with a slash, and so the URL starts with \<^verbatim>\<open>file:///\<close>.
\<close>

theorem url_starts_with_file_scheme:
  "startswith (cwd e) ''/'' \<Longrightarrow>
     modal_path e = ''file://'' @ abspath (cwd e) ''modal.html''
     \<and> startswith (abspath (cwd e) ''modal.html'') ''/''
     \<and> startswith (modal_path e) ''file:///''"
proof -
  assume "startswith (cwd e) ''/''"
  then have a: "startswith (abspath (cwd e) ''modal.html'') ''/''"
    by (rule abspath_slash)
  then obtain q where "abspath (cwd e) ''modal.html'' = CHR ''/'' # q"
    using startswith_slash by blast
  with a show ?thesis
    by (simp add: modal_path_def startswith_def)
qed

text \<open>A space, a hash and a percent sign of the directory's name reach the URL as they are.\<close>

theorem url_starts_with_file_scheme_witness:
  "startswith (cwd odd_env) ''/''
   \<and> modal_path odd_env = ''file:///tmp/a b#c%20/modal.html''
   \<and> modal_path odd_env = ''file://'' @ abspath (cwd odd_env) ''modal.html''
   \<and> startswith (abspath (cwd odd_env) ''modal.html'') ''/''
   \<and> startswith (modal_path odd_env) ''file:///''"
proof -
  have h: "startswith (cwd odd_env) ''/''"
    by (simp add: odd_env_def startswith_def)
  have m: "modal_path odd_env = ''file:///tmp/a b#c%20/modal.html''"
    by (simp add: modal_path_def odd_env_def abspath_odd)
  from url_starts_with_file_scheme [OF h] h m show ?thesis by blast
qed

text \<open>
  C10. Under any module name but \<^verbatim>\<open>__main__\<close> the top level of the module raises
  nothing and leaves the world as it was: the files, the processes, the page and the trace
  of library calls.
\<close>

theorem import_has_no_effect:
  "name \<noteq> ''__main__'' \<Longrightarrow> verify_modal e name w = (None, w)"
  by (simp add: verify_modal_def)

theorem import_has_no_effect_witness:
  "''verify_modal'' \<noteq> ''__main__''
   \<and> verify_modal demo_env ''verify_modal'' (fresh [output_path \<mapsto> old_png]) =
       (None, fresh [output_path \<mapsto> old_png])
   \<and> trace (snd (verify_modal demo_env ''verify_modal'' (fresh [output_path \<mapsto> old_png]))) = []"
proof -
  have n: "''verify_modal'' \<noteq> ''__main__''"
    by simp
  from import_has_no_effect [OF n, of demo_env "fresh [output_path \<mapsto> old_png]"] n
  show ?thesis by (simp add: fresh_def)
qed

end
